theory Spec2Isabelle
  imports Main "HOL-Library.Word"
begin

unbundle bit_operations_syntax

section \<open>Memory and the volatile erasure routine\<close>

text \<open>
  The run-time half of \<^verbatim>\<open>cryptstr.hpp\<close> writes through raw pointers, so it is modelled over
  an explicit store: a memory is a function from addresses to bytes, and a routine that
  writes takes the memory and returns the new one. Addresses are natural numbers (pointer
  arithmetic never leaves an object in the code modelled here); \<^verbatim>\<open>size_t\<close> is a 64-bit word
  wherever the code computes with it.
\<close>

type_synonym addr = nat
type_synonym byte = "8 word"
type_synonym size_t = "64 word"
type_synonym memory = "addr \<Rightarrow> byte"

text \<open>
  \<^verbatim>\<open>
  static void memzero( void* ptr, size_t num ) {
      volatile char* char_ptr = static_cast<volatile char*>(ptr);
      while( num-- > 0) {
          *char_ptr = 0;
          ++char_ptr;
      }
  }
  \<close>
  The test reads \<^verbatim>\<open>num\<close> before the decrement; the decrement at \<^verbatim>\<open>num = 0\<close> wraps, and the
  wrapped value is never read.
\<close>

function memzero :: "memory \<Rightarrow> addr \<Rightarrow> size_t \<Rightarrow> memory" where
  "memzero m char_ptr num =
     (if num > 0 then memzero (m(char_ptr := 0)) (Suc char_ptr) (num - 1) else m)"
  by pat_completeness auto
termination
  by (relation "measure (\<lambda>(m, p, num). unat num)") (auto simp: unat_minus_one word_greater_zero_iff unat_gt_0)

declare memzero.simps [simp del]


section \<open>The compile-time string \<^verbatim>\<open>ctstr\<close>\<close>

text \<open>
  \<^verbatim>\<open>template < class CharType, size_t N > struct ctstr { char_type str[N]; const size_t len; }\<close>.
  The array is a list, the template parameter \<^verbatim>\<open>N\<close> is the number of its elements
  (\<^verbatim>\<open>ct_size\<close>). Sizes and indices of this part are natural numbers: the code only compares
  them and counts up to \<^verbatim>\<open>N\<close>.
\<close>

record 'c ctstr =
  str :: "'c list"
  len :: nat

definition ct_size :: "'c ctstr \<Rightarrow> nat" where
  "ct_size s = length (str s)"

text \<open>
  Every loop of the header has the shape
  \<^verbatim>\<open>for ( size_t i = 0; N > i; ++i ) { arr[i] = body(i); }\<close>:
  \<open>for_store N body i arr\<close> is that loop from counter \<open>i\<close> on.
\<close>

function for_store :: "nat \<Rightarrow> (nat \<Rightarrow> 'c) \<Rightarrow> nat \<Rightarrow> 'c list \<Rightarrow> 'c list" where
  "for_store N body i arr =
     (if N > i then for_store N body (Suc i) (arr[i := body i]) else arr)"
  by pat_completeness auto
termination
  by (relation "measure (\<lambda>(N, body, i, arr). N - i)") auto

declare for_store.simps [simp del]

text \<open>
  \<^verbatim>\<open>
  template < size_t Y >
  constexpr ctstr(const char_type (&_str)[Y] ) noexcept : str{}, len(Y) {
      static_assert(N == Y, "invalid sizes");
      for ( size_t i = 0; N > i; ++i ) { str[i] = _str[i]; }
  }
  \<close>
  The \<^verbatim>\<open>static_assert\<close> leaves \<^verbatim>\<open>N == Y\<close> as the only instantiation that compiles, so
  \<^verbatim>\<open>N\<close> is the length of the argument. \<^verbatim>\<open>str{}\<close> value-initialises the array.
\<close>

definition ctstr_of_array :: "'c::zero list \<Rightarrow> 'c ctstr" where
  "ctstr_of_array a_str =
     (let Y = length a_str; N = Y
      in \<lparr> str = for_store N (\<lambda>i. a_str ! i) 0 (replicate N 0), len = Y \<rparr>)"

text \<open>
  The converting constructor from \<^verbatim>\<open>ctstr<char_type,Y>\<close>, again with \<^verbatim>\<open>N == Y\<close>:
  \<^verbatim>\<open>for ( size_t i = 0; N > i; ++i ) { str[i] = _other.str[i]; }\<close>
\<close>

definition ctstr_of_ctstr :: "'c::zero ctstr \<Rightarrow> 'c ctstr" where
  "ctstr_of_ctstr a_other =
     (let Y = ct_size a_other; N = Y
      in \<lparr> str = for_store N (\<lambda>i. str a_other ! i) 0 (replicate N 0), len = Y \<rparr>)"

text \<open>\<^verbatim>\<open>get()\<close> returns \<^verbatim>\<open>&str[0]\<close>: what a reader of that pointer sees is the array.\<close>

definition get :: "'c ctstr \<Rightarrow> 'c list" where
  "get s = str s"

text \<open>
  \<^verbatim>\<open>
  constexpr const char_type operator [] ( size_t _index ) const {
      return ( _index < len ) ? str[_index] : throw std::out_of_range("index out of range");
  }
  \<close>
\<close>

datatype exception = Out_of_range string | Length_error | Bad_alloc

definition index :: "'c ctstr \<Rightarrow> nat \<Rightarrow> exception + 'c" where
  "index s a_index =
     (if a_index < len s then Inr (str s ! a_index)
      else Inl (Out_of_range ''index out of range''))"

definition size_ctstr :: "'c ctstr \<Rightarrow> nat" where
  "size_ctstr s = len s"

text \<open>
  \<^verbatim>\<open>
  constexpr bool equal(const char (&_str)[Y] ) const noexcept {
      for ( size_t i = 0; N > i; ++i ) {
          if ( str[i] != _str[i] ) { return false; }
      }
      return true;
  }
  \<close>
\<close>

function equal_loop :: "nat \<Rightarrow> 'c list \<Rightarrow> 'c list \<Rightarrow> nat \<Rightarrow> bool" where
  "equal_loop N s a_str i =
     (if N > i then (if s ! i \<noteq> a_str ! i then False else equal_loop N s a_str (Suc i))
      else True)"
  by pat_completeness auto
termination
  by (relation "measure (\<lambda>(N, s, a_str, i). N - i)") auto

declare equal_loop.simps [simp del]

definition equal :: "'c ctstr \<Rightarrow> 'c list \<Rightarrow> bool" where
  "equal s a_str = equal_loop (ct_size s) (str s) a_str 0"

text \<open>
  The four comparison operators: against a raw array of \<^verbatim>\<open>Y\<close> elements and against a
  \<^verbatim>\<open>ctstr<char_type,Y>\<close>. Each returns early when \<^verbatim>\<open>Y != N\<close>.
\<close>

definition eq_array :: "'c ctstr \<Rightarrow> 'c list \<Rightarrow> bool" where
  "eq_array s a_str = (if length a_str \<noteq> ct_size s then False else equal s a_str)"

definition eq_ctstr :: "'c ctstr \<Rightarrow> 'c ctstr \<Rightarrow> bool" where
  "eq_ctstr s a_other = (if ct_size a_other \<noteq> ct_size s then False else equal s (str a_other))"

definition ne_array :: "'c ctstr \<Rightarrow> 'c list \<Rightarrow> bool" where
  "ne_array s a_str = (if length a_str \<noteq> ct_size s then True else \<not> equal s a_str)"

definition ne_ctstr :: "'c ctstr \<Rightarrow> 'c ctstr \<Rightarrow> bool" where
  "ne_ctstr s a_other = (if ct_size a_other \<noteq> ct_size s then True else \<not> equal s (str a_other))"

text \<open>
  \<^verbatim>\<open>make_ctstr(const CharType (&_str)[N])\<close> calls the array constructor. The overload on
  \<^verbatim>\<open>const ctstr<CharType,N>&\<close> builds a \<^verbatim>\<open>ctstr<CharType,N>\<close> from one of the same type, which
  is the implicit member-wise copy.
\<close>

definition make_ctstr :: "'c::zero list \<Rightarrow> 'c ctstr" where
  "make_ctstr a_str = ctstr_of_array a_str"

definition make_ctstr_copy :: "'c ctstr \<Rightarrow> 'c ctstr" where
  "make_ctstr_copy a_other = a_other"

text \<open>
  A string literal \<^verbatim>\<open>"abc"\<close> is an array of its characters followed by the terminating
  zero, so \<^verbatim>\<open>N\<close> counts the terminator.
\<close>

definition literal :: "string \<Rightarrow> byte list" where
  "literal cs = map of_char cs @ [0]"

section \<open>The transform engine and the XOR functor\<close>

text \<open>
  A functor is called as \<^verbatim>\<open>_functor(pointer, N, i)\<close>; it may read the \<^verbatim>\<open>N\<close> characters
  behind the pointer.
\<close>

type_synonym 'c functor_t = "'c list \<Rightarrow> nat \<Rightarrow> nat \<Rightarrow> 'c"

text \<open>
  \<^verbatim>\<open>
  constexpr ctstr<CharType,N> transform(const ctstr<CharType,N>& _other, Functor _functor) noexcept {
      CharType values[N] = {};
      for ( size_t i = 0; N > i; ++i ) { values[i] = _functor(_other.get(),N,i); }
      return ctstr<CharType,N>(values);
  }
  \<close>
  and the same with \<^verbatim>\<open>const CharType (&_str)[N]\<close> and \<^verbatim>\<open>_functor(_str,N,i)\<close>.
\<close>

definition transform :: "'c::zero ctstr \<Rightarrow> 'c functor_t \<Rightarrow> 'c ctstr" where
  "transform a_other a_functor =
     (let N = ct_size a_other;
          values = for_store N (\<lambda>i. a_functor (get a_other) N i) 0 (replicate N 0)
      in ctstr_of_array values)"

definition transform_array :: "'c::zero list \<Rightarrow> 'c functor_t \<Rightarrow> 'c ctstr" where
  "transform_array a_str a_functor =
     (let N = length a_str;
          values = for_store N (\<lambda>i. a_functor a_str N i) 0 (replicate N 0)
      in ctstr_of_array values)"

text \<open>
  \<^verbatim>\<open>
  template < int Key > struct xor_functor {
      template < class CharType >
      constexpr CharType operator () ( const CharType* str, size_t len, size_t index ) noexcept {
          (void)len;
          return str[index] ^ Key;
      }
  };
  \<close>
  For \<^verbatim>\<open>char\<close>: the character is promoted to \<^verbatim>\<open>int\<close> (sign-extended where plain \<^verbatim>\<open>char\<close> is
  signed, zero-extended where it is not), combined with the 32-bit \<^verbatim>\<open>Key\<close>, and the result
  is narrowed back to \<^verbatim>\<open>char\<close>.
\<close>

definition promote :: "bool \<Rightarrow> byte \<Rightarrow> 32 word" where
  "promote char_signed c = (if char_signed then scast c else ucast c)"

definition xor_functor :: "bool \<Rightarrow> int \<Rightarrow> byte functor_t" where
  "xor_functor char_signed Key s n i =
     ucast (promote char_signed (s ! i) XOR (word_of_int Key :: 32 word))"

section \<open>The obfuscated string \<^verbatim>\<open>cryptstr\<close>\<close>

record 'c cryptstr =
  cs_functor :: "'c functor_t"
  cs_data :: "'c ctstr"

text \<open>
  \<^verbatim>\<open>constexpr cryptstr(functor_type _functor, const ctstr<char_type,Y>& _other )
     : data(_other), functor(_functor)\<close> with \<^verbatim>\<open>static_assert(Y == N)\<close>.
\<close>

definition cryptstr_ctor :: "'c functor_t \<Rightarrow> 'c ctstr \<Rightarrow> 'c cryptstr" where
  "cryptstr_ctor a_functor a_other = \<lparr> cs_functor = a_functor, cs_data = a_other \<rparr>"


definition ct :: "'c cryptstr \<Rightarrow> 'c ctstr" where
  "ct c = cs_data c"

definition crypt :: "'c::zero functor_t \<Rightarrow> 'c ctstr \<Rightarrow> 'c cryptstr" where
  "crypt a_functor a_other = cryptstr_ctor a_functor (transform a_other a_functor)"

definition crypt_array :: "'c::zero functor_t \<Rightarrow> 'c list \<Rightarrow> 'c cryptstr" where
  "crypt_array a_functor a_str = cryptstr_ctor a_functor (transform_array a_str a_functor)"

section \<open>The secure view \<^verbatim>\<open>strview\<close> and \<^verbatim>\<open>decrypt\<close>\<close>

text \<open>
  \<^verbatim>\<open>struct strview : std::basic_string<CharType>, zero<strview<CharType>>\<close>, for
  \<^verbatim>\<open>CharType = char\<close>, one byte per character. Of the string base the model keeps what the
  header reads: \<^verbatim>\<open>c_str()\<close>, the address of the character buffer, and \<^verbatim>\<open>size()\<close>.
\<close>

record strview =
  c_str :: addr
  vsize :: nat

definition sizeof_char :: size_t where
  "sizeof_char = 1"

text \<open>
  The library constructor \<^verbatim>\<open>std::basic_string(const CharT* s, size_type count)\<close>: the string
  obtains storage at \<open>buf\<close> (from its allocator, or inside itself), copies \<open>count\<close>
  characters from \<open>s\<close> into it and ends them with a zero character.
\<close>

definition basic_string_ctor :: "memory \<Rightarrow> addr \<Rightarrow> addr \<Rightarrow> nat \<Rightarrow> memory \<times> strview" where
  "basic_string_ctor m buf s count =
     ((\<lambda>a. if buf \<le> a \<and> a < buf + count then m (s + (a - buf))
            else if a = buf + count then 0 else m a),
      \<lparr> c_str = buf, vsize = count \<rparr>)"

text \<open>
  A \<^verbatim>\<open>ctstr<char,N>\<close> object at address \<open>p\<close>: the array is its first member, so
  \<^verbatim>\<open>get()\<close> is \<open>p\<close> and the characters lie at \<open>p, ..., p + N - 1\<close>.
\<close>

definition store_ctstr :: "memory \<Rightarrow> addr \<Rightarrow> byte ctstr \<Rightarrow> memory" where
  "store_ctstr m p s = (\<lambda>a. if p \<le> a \<and> a < p + ct_size s then str s ! (a - p) else m a)"

text \<open>
  \<^verbatim>\<open>strview( const ctstr<char_type,N>& _str) : std::basic_string<char_type>(_str.get(), _str.size()) {}\<close>
  where the object \<^verbatim>\<open>_str\<close> lies at \<open>p\<close>.
\<close>

definition strview_ctor :: "memory \<Rightarrow> addr \<Rightarrow> addr \<Rightarrow> byte ctstr \<Rightarrow> memory \<times> strview" where
  "strview_ctor m buf p a_str = basic_string_ctor m buf p (size_ctstr a_str)"

text \<open>
  \<^verbatim>\<open>~strview() { memzero((void*)this->c_str(), this->size() * sizeof(CharType)); }\<close>
  The product is computed in \<^verbatim>\<open>size_t\<close>.
\<close>

definition strview_dtor :: "memory \<Rightarrow> strview \<Rightarrow> memory" where
  "strview_dtor m v = memzero m (c_str v) (of_nat (vsize v) * sizeof_char)"

text \<open>
  \<^verbatim>\<open>~zero() { memzero( static_cast<void*>(this), sizeof(parent_type)); }\<close>
  The address of the base subobject and the size of the parent type belong to the
  object layout; they are parameters.
\<close>

definition zero_dtor :: "memory \<Rightarrow> addr \<Rightarrow> size_t \<Rightarrow> memory" where
  "zero_dtor m self sizeof_parent = memzero m self sizeof_parent"

text \<open>
  Destroying a \<^verbatim>\<open>strview\<close> runs the body of \<^verbatim>\<open>~strview\<close>, then the destructors of the
  bases in reverse order of declaration: \<^verbatim>\<open>~zero\<close> first, and last the library's
  \<^verbatim>\<open>~basic_string\<close>, which hands the buffer back without writing to it. The memory below
  is the one \<^verbatim>\<open>~basic_string\<close> starts from.
\<close>

definition destroy_strview :: "memory \<Rightarrow> strview \<Rightarrow> addr \<Rightarrow> size_t \<Rightarrow> memory" where
  "destroy_strview m v self sizeof_parent = zero_dtor (strview_dtor m v) self sizeof_parent"

text \<open>
  \<^verbatim>\<open>
  strview<CharType> decrypt() const {
      auto raw = transform(data, functor);
      strview<CharType> view(raw);
      memzero( (void*)const_cast<CharType*>(raw.get()), sizeof(CharType) * N);
      return view;
  }
  \<close>
  \<open>raw_at\<close> is the address of the local \<^verbatim>\<open>raw\<close>, \<open>buf\<close> the storage the view obtains. The
  view is returned by value and keeps that storage.
\<close>

definition decrypt :: "memory \<Rightarrow> addr \<Rightarrow> addr \<Rightarrow> byte cryptstr \<Rightarrow> memory \<times> strview" where
  "decrypt m raw_at buf c =
     (let N = ct_size (cs_data c);
          raw = transform (cs_data c) (cs_functor c);
          m1 = store_ctstr m raw_at raw;
          (m2, view) = strview_ctor m1 buf raw_at raw;
          m3 = memzero m2 raw_at (sizeof_char * of_nat N)
      in (m3, view))"

text \<open>What a reader of the view sees: \<open>size()\<close> characters from \<open>c_str()\<close> on.\<close>

definition content :: "memory \<Rightarrow> strview \<Rightarrow> byte list" where
  "content m v = map (\<lambda>i. m (c_str v + i)) [0..<vsize v]"




section \<open>Concrete inputs\<close>

text \<open>
  A second transform object, used below to test the round trip: it adds one to each
  character. It is deterministic, reads only index \<open>i\<close>, and is invertible (by
  subtracting one).
\<close>

definition add_functor :: "byte functor_t" where
  "add_functor s n i = s ! i + 1"

text \<open>A memory holding the same byte everywhere, as a starting store for concrete runs.\<close>

definition filled :: "byte \<Rightarrow> memory" where
  "filled b = (\<lambda>a. b)"

section \<open>What the loops compute\<close>

lemma for_store_from:
  "i \<le> N \<Longrightarrow> length arr = N \<Longrightarrow> for_store N body i arr = take i arr @ map body [i..<N]"
proof (induction N body i arr rule: for_store.induct)
  case (1 N body i arr)
  show ?case
  proof (cases "N > i")
    case True
    have "for_store N body i arr = for_store N body (Suc i) (arr[i := body i])"
      using True by (simp add: for_store.simps)
    also have "\<dots> = take (Suc i) (arr[i := body i]) @ map body [Suc i..<N]"
      using "1.IH" [OF True] True "1.prems" by simp
    also have "take (Suc i) (arr[i := body i]) = take i arr @ [body i]"
      using True "1.prems" by (simp add: take_Suc_conv_app_nth)
    finally show ?thesis using True by (simp add: upt_conv_Cons)
  next
    case False
    with "1.prems" show ?thesis by (simp add: for_store.simps)
  qed
qed

lemma for_store_fill: "for_store N body 0 (replicate N z) = map body [0..<N]"
  by (simp add: for_store_from)

lemma ctstr_of_array_eq: "ctstr_of_array xs = \<lparr> str = xs, len = length xs \<rparr>"
  by (simp add: ctstr_of_array_def Let_def for_store_fill map_nth)

text \<open>
  The converting constructor and the member-wise copy agree on every string whose
  \<^verbatim>\<open>len\<close> is its \<^verbatim>\<open>N\<close>, which all constructors establish.
\<close>

lemma ctstr_of_ctstr_eq: "ctstr_of_ctstr s = \<lparr> str = str s, len = ct_size s \<rparr>"
  by (simp add: ctstr_of_ctstr_def ct_size_def Let_def for_store_fill map_nth)

lemma make_ctstr_eq: "make_ctstr xs = \<lparr> str = xs, len = length xs \<rparr>"
  by (simp add: make_ctstr_def ctstr_of_array_eq)

lemma transform_eq:
  "transform s F =
     \<lparr> str = map (\<lambda>i. F (get s) (ct_size s) i) [0..<ct_size s], len = ct_size s \<rparr>"
  by (simp add: transform_def Let_def for_store_fill ctstr_of_array_eq)

lemma transform_array_eq:
  "transform_array xs F =
     \<lparr> str = map (\<lambda>i. F xs (length xs) i) [0..<length xs], len = length xs \<rparr>"
  by (simp add: transform_array_def Let_def for_store_fill ctstr_of_array_eq)

lemma equal_loop_iff:
  "equal_loop N s t i \<longleftrightarrow> (\<forall>j. i \<le> j \<and> j < N \<longrightarrow> s ! j = t ! j)"
proof (induction N s t i rule: equal_loop.induct)
  case (1 N s t i)
  show ?case
  proof (cases "N > i")
    case True
    show ?thesis
    proof (cases "s ! i = t ! i")
      case same: True
      have "equal_loop N s t i = equal_loop N s t (Suc i)"
        using True same by (simp add: equal_loop.simps)
      also have "\<dots> \<longleftrightarrow> (\<forall>j. Suc i \<le> j \<and> j < N \<longrightarrow> s ! j = t ! j)"
        using "1.IH" True same by simp
      also have "\<dots> \<longleftrightarrow> (\<forall>j. i \<le> j \<and> j < N \<longrightarrow> s ! j = t ! j)"
        using same by (metis Suc_leI le_neq_implies_less Suc_leD)
      finally show ?thesis .
    next
      case False
      then show ?thesis using True by (auto simp: equal_loop.simps)
    qed
  next
    case False
    then show ?thesis by (auto simp: equal_loop.simps)
  qed
qed

lemma equal_iff: "equal s t \<longleftrightarrow> (\<forall>j<ct_size s. str s ! j = t ! j)"
  by (simp add: equal_def equal_loop_iff)

lemma memzero_at:
  "memzero m p n a = (if p \<le> a \<and> a < p + unat n then 0 else m a)"
proof (induction m p n arbitrary: a rule: memzero.induct)
  case (1 m p n)
  show ?case
  proof (cases "n > 0")
    case True
    then have n: "unat n = Suc (unat (n - 1))"
      by (metis Suc_pred' unat_gt_0 unat_minus_one word_greater_zero_iff)
    have "memzero m p n a = memzero (m(p := 0)) (Suc p) (n - 1) a"
      using True by (subst memzero.simps) simp
    also have "\<dots> = (if Suc p \<le> a \<and> a < Suc p + unat (n - 1) then 0 else (m(p := 0)) a)"
      by (rule "1.IH" [OF True])
    also have "\<dots> = (if p \<le> a \<and> a < p + unat n then 0 else m a)"
      using n by auto
    finally show ?thesis .
  next
    case False
    then have "n = 0" by (simp add: word_greater_zero_iff)
    then show ?thesis by (subst memzero.simps) auto
  qed
qed

text \<open>
  Whatever the signedness of plain \<^verbatim>\<open>char\<close>, the functor combines the character with the
  low byte of the key.
\<close>

lemma xor_functor_eq: "xor_functor sg Key s n i = (s ! i) XOR word_of_int Key"
  unfolding xor_functor_def promote_def
  by (rule bit_word_eqI) (auto simp: bit_simps)

lemma unat_of_nat_le: "unat (of_nat n :: size_t) \<le> n"
  by (simp add: unat_of_nat)

lemma key_low_byte: "(word_of_int Key :: byte) = 0 \<longleftrightarrow> Key mod 256 = 0"
  by (simp add: word_of_int_eq_0_iff) presburger

section \<open>The erasure primitive\<close>

text \<open>
  C8. \<^verbatim>\<open>memzero(p, n)\<close> sets each of the \<open>n\<close> bytes starting at \<open>p\<close> to zero and leaves
  every byte outside \<open>[p, p + n)\<close> as it was.
\<close>

theorem memzero_wipes:
  "(\<forall>a. p \<le> a \<and> a < p + unat n \<longrightarrow> memzero m p n a = 0) \<and>
   (\<forall>a. \<not> (p \<le> a \<and> a < p + unat n) \<longrightarrow> memzero m p n a = m a)"
  by (simp add: memzero_at)

theorem memzero_wipes_witness:
  "memzero (filled 7) 10 3 10 = 0 \<and> memzero (filled 7) 10 3 12 = 0 \<and>
   memzero (filled 7) 10 3 9 = 7 \<and> memzero (filled 7) 10 3 13 = 7"
  using memzero_wipes [of 10 3 "filled 7"] by (simp add: filled_def)

section \<open>The fixed string\<close>

text \<open>
  C5. Equality: a fixed string of length \<open>N\<close> compared with a fixed string or a raw array
  of length \<open>Y\<close> is unequal whenever \<open>Y \<noteq> N\<close>; when \<open>Y = N\<close> it is equal iff every element
  in \<open>[0, N)\<close> matches. So \<^verbatim>\<open>make(X) == make(X)\<close> holds, and \<^verbatim>\<open>make(X) != make(Y)\<close> holds for
  distinct \<open>X\<close>, \<open>Y\<close> of any lengths.
\<close>

theorem equality_semantics:
  "(length ys \<noteq> length xs \<longrightarrow>
      \<not> eq_array (make_ctstr xs) ys \<and> \<not> eq_ctstr (make_ctstr xs) (make_ctstr ys)) \<and>
   (length ys = length xs \<longrightarrow>
      (eq_array (make_ctstr xs) ys \<longleftrightarrow> (\<forall>i<length xs. xs ! i = ys ! i)) \<and>
      (eq_ctstr (make_ctstr xs) (make_ctstr ys) \<longleftrightarrow> (\<forall>i<length xs. xs ! i = ys ! i))) \<and>
   eq_ctstr (make_ctstr xs) (make_ctstr xs) \<and>
   (xs \<noteq> ys \<longrightarrow> ne_ctstr (make_ctstr xs) (make_ctstr ys))"
  by (auto simp: eq_array_def eq_ctstr_def ne_ctstr_def equal_iff make_ctstr_eq ct_size_def
      list_eq_iff_nth_eq)

theorem equality_semantics_witness:
  "\<not> eq_ctstr (make_ctstr (literal ''HELLO DOG'')) (make_ctstr (literal ''HELLO CAT'')) \<and>
   ne_ctstr (make_ctstr (literal ''HELLO DOG'')) (make_ctstr (literal ''HELLO CAT'')) \<and>
   ne_ctstr (make_ctstr (literal ''HELLO DOG'')) (make_ctstr (literal ''HELLO'')) \<and>
   \<not> eq_array (make_ctstr (literal ''HELLO DOG'')) (literal ''HELLO'') \<and>
   eq_ctstr (make_ctstr (literal ''HELLO'')) (make_ctstr (literal ''HELLO''))"
proof -
  have differ: "\<not> (\<forall>i<length (literal ''HELLO DOG'').
                    literal ''HELLO DOG'' ! i = literal ''HELLO CAT'' ! i)"
    by (auto simp: literal_def intro!: exI [of _ 6])
  have lens: "length (literal ''HELLO CAT'') = length (literal ''HELLO DOG'')"
             "length (literal ''HELLO'') \<noteq> length (literal ''HELLO DOG'')"
             "literal ''HELLO DOG'' \<noteq> literal ''HELLO CAT''"
             "literal ''HELLO DOG'' \<noteq> literal ''HELLO''"
    by (simp_all add: literal_def)
  show ?thesis
    using equality_semantics [of "literal ''HELLO CAT''" "literal ''HELLO DOG''"]
          equality_semantics [of "literal ''HELLO''" "literal ''HELLO DOG''"]
          equality_semantics [of "literal ''HELLO''" "literal ''HELLO''"]
          differ lens
    by blast
qed

text \<open>
  C9. For fixed strings \<open>a\<close>, \<open>b\<close> of any lengths and any raw array, \<^verbatim>\<open>!=\<close> returns the
  negation of \<^verbatim>\<open>==\<close>, and \<^verbatim>\<open>a == a\<close> holds.
\<close>

theorem ne_negates_eq:
  "ne_ctstr a b = (\<not> eq_ctstr a b) \<and> ne_array a ys = (\<not> eq_array a ys) \<and> eq_ctstr a a"
  by (simp add: ne_ctstr_def eq_ctstr_def ne_array_def eq_array_def equal_iff)

section \<open>The transform engine\<close>

text \<open>
  C3. For a fixed string of length \<open>N\<close> and a functor \<open>F\<close>, \<^verbatim>\<open>transform\<close> returns a fixed
  string of length \<open>N\<close> whose element at each \<open>i < N\<close> is \<open>F(source pointer, N, i)\<close>. The
  source is read through a pointer to const and the loop writes only the local
  \<^verbatim>\<open>values\<close>: the result is a function of the source's characters and the functor.
\<close>

theorem transform_correct:
  "ct_size (transform s F) = ct_size s \<and>
   size_ctstr (transform s F) = ct_size s \<and>
   (\<forall>i<ct_size s. str (transform s F) ! i = F (get s) (ct_size s) i) \<and>
   (\<forall>i<ct_size s. index (transform s F) i = Inr (F (get s) (ct_size s) i))"
  by (simp add: transform_eq ct_size_def size_ctstr_def index_def)

theorem transform_correct_witness:
  "ct_size (transform (make_ctstr [72, 73, 0]) add_functor) = 3 \<and>
   str (transform (make_ctstr [72, 73, 0]) add_functor) ! 1 = 74 \<and>
   index (transform (make_ctstr [72, 73, 0]) add_functor) 2 = Inr 1"
  using transform_correct [of "make_ctstr [72, 73, 0]" add_functor]
  by (simp add: make_ctstr_eq ct_size_def get_def add_functor_def)

text \<open>
  C7. The overload of \<^verbatim>\<open>transform\<close> on a fixed string and the one on the raw array give
  equal fixed strings, and the two overloads of \<^verbatim>\<open>crypt\<close> give obfuscated values with
  the same stored contents.
\<close>

theorem overloads_agree:
  "transform (make_ctstr xs) F = transform_array xs F \<and>
   crypt F (make_ctstr xs) = crypt_array F xs \<and>
   cs_data (crypt F (make_ctstr xs)) = cs_data (crypt_array F xs)"
  by (simp add: crypt_def crypt_array_def transform_eq transform_array_eq make_ctstr_eq
      ct_size_def get_def)

section \<open>The obfuscated string\<close>

lemma crypt_array_eq:
  "crypt_array F P = \<lparr> cs_functor = F, cs_data = transform_array P F \<rparr>"
  by (simp add: crypt_array_def cryptstr_ctor_def)

lemma crypt_array_data:
  "str (cs_data (crypt_array F P)) = map (\<lambda>i. F P (length P) i) [0..<length P]"
  by (simp add: crypt_array_eq transform_array_eq)

lemma crypt_data:
  "str (ct (crypt F (make_ctstr P))) = map (\<lambda>i. F P (length P) i) [0..<length P]"
  by (simp add: crypt_def ct_def cryptstr_ctor_def transform_eq make_ctstr_eq ct_size_def get_def)

lemma ct_size_transform_array: "ct_size (transform_array P F) = length P"
  by (simp add: transform_array_eq ct_size_def)

lemma xor_changes: "Key mod 256 \<noteq> 0 \<Longrightarrow> (c :: byte) XOR word_of_int Key \<noteq> c"
proof
  assume k: "Key mod 256 \<noteq> 0" and "c XOR word_of_int Key = c"
  then have "c XOR (c XOR word_of_int Key) = c XOR c" by simp
  then have "(word_of_int Key :: byte) = 0" by (simp flip: xor.assoc)
  with k show False by (simp add: key_low_byte)
qed

lemma xor_twice: "((c :: byte) XOR k) XOR k = c"
  by (simp add: xor.assoc)

lemma xor_functor_self_inverse:
  "i < length P \<Longrightarrow>
     xor_functor sg Key (get (transform_array P (xor_functor sg Key))) (length P) i = P ! i"
  by (simp add: transform_array_eq get_def xor_functor_eq xor_twice)

text \<open>The bytes that \<^verbatim>\<open>main.cpp\<close> stores for its first string.\<close>

lemma first_crypted_string:
  "str (cs_data (crypt_array (xor_functor sg 0x1337) (literal ''FIRST CRYPTED STRING''))) =
     [113, 126, 101, 100, 99, 23, 116, 101, 110, 103, 99, 114, 115, 23, 100, 99, 101, 126,
      121, 112, 55]"
  by (simp add: crypt_array_data xor_functor_eq literal_def)

text \<open>
  C6. For a plaintext \<open>P\<close> of length \<open>N\<close> encoded with \<^verbatim>\<open>xor_functor<Key>\<close> where
  \<open>Key mod 256 \<noteq> 0\<close>, the fixed string stored in the obfuscated value differs from \<open>P\<close> at
  every index in \<open>[0, N)\<close>; so it does for \<^verbatim>\<open>"FIRST CRYPTED STRING"\<close> with key \<^verbatim>\<open>0x1337\<close>.
\<close>

theorem no_plaintext_at_rest:
  "(Key mod 256 \<noteq> 0 \<longrightarrow>
      (\<forall>i<length P. str (cs_data (crypt_array (xor_functor sg Key) P)) ! i \<noteq> P ! i) \<and>
      (\<forall>i<length P. str (ct (crypt (xor_functor sg Key) (make_ctstr P))) ! i \<noteq> P ! i)) \<and>
   (\<forall>i<length (literal ''FIRST CRYPTED STRING'').
      str (cs_data (crypt_array (xor_functor sg 0x1337) (literal ''FIRST CRYPTED STRING''))) ! i
        \<noteq> literal ''FIRST CRYPTED STRING'' ! i)"
proof -
  have gen: "str (cs_data (crypt_array (xor_functor sg K) Q)) ! i \<noteq> Q ! i"
            "str (ct (crypt (xor_functor sg K) (make_ctstr Q))) ! i \<noteq> Q ! i"
    if "K mod 256 \<noteq> 0" "i < length Q" for K Q i
    using that by (simp_all add: crypt_array_data crypt_data xor_functor_eq xor_changes)
  have "(0x1337 :: int) mod 256 \<noteq> 0" by simp
  with gen show ?thesis by blast
qed

theorem no_plaintext_at_rest_witness:
  "(0x1337 :: int) mod 256 \<noteq> 0 \<and>
   str (cs_data (crypt_array (xor_functor True 0x1337) (literal ''FIRST''))) ! 0 \<noteq> of_char CHR ''F'' \<and>
   str (ct (crypt (xor_functor False 0x1337) (make_ctstr (literal ''FIRST'')))) ! 5 \<noteq> 0"
proof -
  have k: "(0x1337 :: int) mod 256 \<noteq> 0" by simp
  have l: "0 < length (literal ''FIRST'')" "5 < length (literal ''FIRST'')"
    by (simp_all add: literal_def)
  have v: "literal ''FIRST'' ! 0 = of_char CHR ''F''" "literal ''FIRST'' ! 5 = 0"
    by (simp_all add: literal_def)
  have "str (cs_data (crypt_array (xor_functor True 0x1337) (literal ''FIRST''))) ! 0
          \<noteq> literal ''FIRST'' ! 0"
    using no_plaintext_at_rest [of "0x1337" "literal ''FIRST''" True] k l(1) by blast
  moreover have "str (ct (crypt (xor_functor False 0x1337) (make_ctstr (literal ''FIRST'')))) ! 5
          \<noteq> literal ''FIRST'' ! 5"
    using no_plaintext_at_rest [of "0x1337" "literal ''FIRST''" False] k l(2) by blast
  ultimately show ?thesis using k v by simp
qed

section \<open>The secure view\<close>

lemma strview_ctor_view: "snd (strview_ctor m buf p s) = \<lparr> c_str = buf, vsize = len s \<rparr>"
  by (simp add: strview_ctor_def basic_string_ctor_def size_ctstr_def)

lemma strview_ctor_mem:
  "fst (strview_ctor m buf p s) a =
     (if buf \<le> a \<and> a < buf + len s then m (p + (a - buf))
      else if a = buf + len s then 0 else m a)"
  by (simp add: strview_ctor_def basic_string_ctor_def size_ctstr_def)

lemma content_eq_iff:
  "content m v = xs \<longleftrightarrow> vsize v = length xs \<and> (\<forall>i<length xs. m (c_str v + i) = xs ! i)"
  by (auto simp: content_def list_eq_iff_nth_eq)

text \<open>
  C10. A \<^verbatim>\<open>strview\<close> constructed from a fixed string of length \<open>N\<close> has size \<open>N\<close> and its
  element \<open>i\<close> is the fixed string's element \<open>i\<close> for every \<open>i < N\<close>. For a string built
  from a literal, the terminating zero is part of the content and counted in the size.
  The view is a copy: its characters lie in its own storage \<open>buf\<close>, the constructor
  writes nowhere else, and where that storage is apart from the fixed string the content
  is still there after the fixed string's array has been wiped.
\<close>

theorem strview_copies_whole_string:
  "(let s = make_ctstr xs; (m', v) = strview_ctor (store_ctstr m p s) buf p s
    in vsize v = length xs \<and> (\<forall>i<length xs. m' (c_str v + i) = xs ! i) \<and> content m' v = xs \<and>
       c_str v = buf \<and>
       (\<forall>a. \<not> (buf \<le> a \<and> a \<le> buf + length xs) \<longrightarrow> m' a = store_ctstr m p s a) \<and>
       (p + length xs \<le> buf \<or> buf + length xs < p \<longrightarrow>
          content (memzero m' p (sizeof_char * of_nat (length xs))) v = xs)) \<and>
   (let s = make_ctstr (literal cs); (m', v) = strview_ctor (store_ctstr m p s) buf p s
    in vsize v = length cs + 1 \<and> m' (c_str v + length cs) = 0 \<and> c_str v = buf)"
proof -
  let ?ctor = "\<lambda>ys. strview_ctor (store_ctstr m p (make_ctstr ys)) buf p (make_ctstr ys)"
  have v: "snd (?ctor ys) = \<lparr> c_str = buf, vsize = length ys \<rparr>" for ys
    by (simp add: strview_ctor_view make_ctstr_eq)
  have b: "fst (?ctor ys) (buf + i) = ys ! i" if "i < length ys" for ys i
    using that
    by (simp add: strview_ctor_mem make_ctstr_eq store_ctstr_def ct_size_def)
  have c: "literal cs ! length cs = 0" "length (literal cs) = length cs + 1"
    by (simp_all add: literal_def nth_append)
  have d: "content (fst (?ctor xs)) (snd (?ctor xs)) = xs"
    using b [of _ xs] by (simp add: content_eq_iff v)
  have e: "fst (?ctor xs) a = store_ctstr m p (make_ctstr xs) a"
    if "\<not> (buf \<le> a \<and> a \<le> buf + length xs)" for a
    using that by (auto simp: strview_ctor_mem make_ctstr_eq)
  have f: "content (memzero (fst (?ctor xs)) p (sizeof_char * of_nat (length xs))) (snd (?ctor xs)) = xs"
    if sep: "p + length xs \<le> buf \<or> buf + length xs < p"
  proof -
    have "memzero (fst (?ctor xs)) p (sizeof_char * of_nat (length xs)) (buf + i) = xs ! i"
      if i: "i < length xs" for i
    proof -
      have "unat (sizeof_char * of_nat (length xs) :: size_t) \<le> length xs"
        by (simp add: sizeof_char_def unat_of_nat_le)
      with sep i have "\<not> (p \<le> buf + i \<and>
          buf + i < p + unat (sizeof_char * of_nat (length xs) :: size_t))"
        by auto
      then have "memzero (fst (?ctor xs)) p (sizeof_char * of_nat (length xs)) (buf + i) =
                   fst (?ctor xs) (buf + i)"
        by (simp only: memzero_at if_False)
      with b [OF i] show ?thesis by simp
    qed
    then show ?thesis by (simp add: content_eq_iff v)
  qed
  show ?thesis
    using b [of _ xs] b [of "length cs" "literal cs"] c d e f
    by (simp add: Let_def split_def v)
qed

theorem strview_copies_whole_string_witness:
  "((0::nat) + length (literal ''HI'') \<le> 100 \<or> 100 + length (literal ''HI'') < (0::nat)) \<and>
   (let s = make_ctstr (literal ''HI''); (m', v) = strview_ctor (store_ctstr (filled 9) 0 s) 100 0 s
    in vsize v = length ''HI'' + 1 \<and> m' (c_str v + length ''HI'') = 0 \<and> c_str v = 100 \<and>
       content m' v = literal ''HI'' \<and>
       content (memzero m' 0 (sizeof_char * of_nat (length (literal ''HI'')))) v = literal ''HI'')"
proof -
  have sep: "(0::nat) + length (literal ''HI'') \<le> 100 \<or> 100 + length (literal ''HI'') < (0::nat)"
    by (simp add: literal_def)
  show ?thesis
    unfolding Let_def split_def
    using sep strview_copies_whole_string
            [of "literal ''HI''" "filled 9" 0 100 "''HI''", unfolded Let_def split_def]
    by blast
qed

text \<open>
  C2. When a \<^verbatim>\<open>strview\<close> is destroyed, every byte of its buffer, the
  \<^verbatim>\<open>size() * sizeof(CharType)\<close> bytes at \<^verbatim>\<open>c_str()\<close>, is zero when the body of \<^verbatim>\<open>~strview\<close> ends,
  and still is when \<^verbatim>\<open>~zero\<close> has run and \<^verbatim>\<open>~basic_string\<close> is about to release the storage:
  a read of the former backing memory sees zero bytes. \<^verbatim>\<open>size()\<close> is a \<^verbatim>\<open>size_t\<close>.
\<close>

theorem strview_erased_on_destruction:
  assumes "vsize v < 2 ^ 64"
  shows "(\<forall>a. c_str v \<le> a \<and> a < c_str v + vsize v * unat sizeof_char \<longrightarrow> strview_dtor m v a = 0) \<and>
         (\<forall>a. c_str v \<le> a \<and> a < c_str v + vsize v * unat sizeof_char \<longrightarrow>
            destroy_strview m v self sizeof_parent a = 0)"
proof -
  have "unat (of_nat (vsize v) * sizeof_char :: size_t) = vsize v"
    using assms by (simp add: sizeof_char_def unat_of_nat)
  then show ?thesis
    by (simp add: destroy_strview_def zero_dtor_def strview_dtor_def memzero_at sizeof_char_def)
qed

theorem strview_erased_on_destruction_witness:
  "(3 :: nat) < 2 ^ 64 \<and>
   filled 65 101 = 65 \<and>
   strview_dtor (filled 65) \<lparr> c_str = 100, vsize = 3 \<rparr> 101 = 0 \<and>
   destroy_strview (filled 65) \<lparr> c_str = 100, vsize = 3 \<rparr> 200 32 102 = 0"
  using strview_erased_on_destruction [of "\<lparr> c_str = 100, vsize = 3 \<rparr>" "filled 65" 200 32]
  by (simp add: sizeof_char_def filled_def)

section \<open>Decoding\<close>

lemma decrypt_view:
  "snd (decrypt m raw_at buf c) = \<lparr> c_str = buf, vsize = ct_size (cs_data c) \<rparr>"
  by (simp add: decrypt_def Let_def split_def strview_ctor_view transform_eq)

lemma decrypt_mem:
  "fst (decrypt m raw_at buf c) =
     memzero
       (fst (strview_ctor (store_ctstr m raw_at (transform (cs_data c) (cs_functor c))) buf raw_at
          (transform (cs_data c) (cs_functor c))))
       raw_at (sizeof_char * of_nat (ct_size (cs_data c)))"
  by (simp add: decrypt_def Let_def split_def)

text \<open>
  The view's storage (\<open>N\<close> characters and the terminator) and the array of the local
  \<^verbatim>\<open>raw\<close> are distinct objects. Then the wipe of \<^verbatim>\<open>raw\<close> leaves the view's characters alone.
\<close>

lemma decrypt_mem_view:
  assumes sep: "raw_at + ct_size (cs_data c) \<le> buf \<or> buf + ct_size (cs_data c) < raw_at"
      and i: "i < ct_size (cs_data c)"
  shows "fst (decrypt m raw_at buf c) (buf + i) =
           cs_functor c (get (cs_data c)) (ct_size (cs_data c)) i"
proof -
  let ?N = "ct_size (cs_data c)"
  let ?raw = "transform (cs_data c) (cs_functor c)"
  have wiped: "unat (sizeof_char * of_nat ?N :: size_t) \<le> ?N"
    by (simp add: sizeof_char_def unat_of_nat_le)
  have out: "\<not> (raw_at \<le> buf + i \<and> buf + i < raw_at + unat (sizeof_char * of_nat ?N :: size_t))"
    using sep i wiped by auto
  have raw: "len ?raw = ?N" "ct_size ?raw = ?N" "str ?raw ! i = cs_functor c (get (cs_data c)) ?N i"
    using i by (simp_all add: transform_eq ct_size_def)
  have "fst (decrypt m raw_at buf c) (buf + i) =
          (if raw_at \<le> buf + i \<and> buf + i < raw_at + unat (sizeof_char * of_nat ?N :: size_t)
           then 0
           else fst (strview_ctor (store_ctstr m raw_at ?raw) buf raw_at ?raw) (buf + i))"
    by (simp only: decrypt_mem memzero_at)
  also have "\<dots> = fst (strview_ctor (store_ctstr m raw_at ?raw) buf raw_at ?raw) (buf + i)"
    by (rule if_not_P [OF out])
  also have "\<dots> = store_ctstr m raw_at ?raw (raw_at + i)"
    using i raw by (simp add: strview_ctor_mem)
  also have "\<dots> = str ?raw ! i"
    using i raw by (simp add: store_ctstr_def)
  finally show ?thesis using raw by simp
qed

lemma decrypt_content:
  assumes sep: "raw_at + ct_size (cs_data c) \<le> buf \<or> buf + ct_size (cs_data c) < raw_at"
  shows "content (fst (decrypt m raw_at buf c)) (snd (decrypt m raw_at buf c)) =
           str (transform (cs_data c) (cs_functor c))"
proof -
  have "content (fst (decrypt m raw_at buf c)) (snd (decrypt m raw_at buf c)) =
          map (\<lambda>i. fst (decrypt m raw_at buf c) (buf + i)) [0..<ct_size (cs_data c)]"
    by (simp add: content_def decrypt_view)
  also have "\<dots> = map (\<lambda>i. cs_functor c (get (cs_data c)) (ct_size (cs_data c)) i)
                      [0..<ct_size (cs_data c)]"
    using decrypt_mem_view [OF sep] by simp
  finally show ?thesis by (simp add: transform_eq)
qed

text \<open>The transient plaintext is gone when \<^verbatim>\<open>decrypt\<close> returns.\<close>

lemma decrypt_wipes_raw:
  assumes "ct_size (cs_data c) < 2 ^ 64" and "i < ct_size (cs_data c)"
  shows "fst (decrypt m raw_at buf c) (raw_at + i) = 0"
proof -
  have "unat (sizeof_char * of_nat (ct_size (cs_data c)) :: size_t) = ct_size (cs_data c)"
    using assms(1) by (simp add: sizeof_char_def unat_of_nat)
  then show ?thesis
    using assms(2) by (simp add: decrypt_mem memzero_at)
qed

text \<open>\<open>add_functor\<close> is invertible character by character.\<close>

lemma add_functor_invertible: "add_functor s n i - 1 = s ! i"
  by (simp add: add_functor_def)

text \<open>
  C1 as stated, for every transform object, does not hold: \<^verbatim>\<open>decrypt\<close> applies the same
  functor a second time, and \<open>add_functor\<close> applied twice adds two. The plaintext
  \<open>[65, 0]\<close> (the literal \<^verbatim>\<open>"A"\<close>) comes back as \<open>[67, 2]\<close>.
\<close>

theorem roundtrip_counterexample:
  "(let (m', v) = decrypt (filled 0) 0 100 (crypt_array add_functor [65, 0])
    in content m' v = [67, 2] \<and> content m' v \<noteq> [65, 0])"
proof -
  have "content (fst (decrypt (filled 0) 0 100 (crypt_array add_functor [65, 0])))
          (snd (decrypt (filled 0) 0 100 (crypt_array add_functor [65, 0]))) = [67, 2]"
    by (subst decrypt_content)
       (simp_all add: crypt_array_eq transform_eq transform_array_eq ct_size_def get_def
          add_functor_def)
  then show ?thesis by (simp add: split_def)
qed

text \<open>
  C1, amended. For every plaintext \<open>P\<close> of length \<open>N\<close> and every transform object \<open>F\<close>
  that undoes itself on the encoding of \<open>P\<close> (applied to the encoded string it returns
  \<open>P[i]\<close> at every \<open>i < N\<close>), encoding \<open>P\<close> with \<^verbatim>\<open>crypt\<close> and decoding with \<^verbatim>\<open>decrypt\<close> yields
  a view of size \<open>N\<close> whose content equals \<open>P\<close> at every index in \<open>[0, N)\<close>.
  \<^verbatim>\<open>xor_functor<Key>\<close> is such an \<open>F\<close> for every \<open>Key\<close>. The premise \<open>sep\<close> says that the
  view's storage and the array of the local \<^verbatim>\<open>raw\<close> do not overlap.
\<close>

theorem roundtrip_self_inverse:
  assumes sep: "raw_at + length P \<le> buf \<or> buf + length P < raw_at"
  shows "((\<forall>i<length P. F (get (transform_array P F)) (length P) i = P ! i) \<longrightarrow>
            (let (m', v) = decrypt m raw_at buf (crypt_array F P)
             in vsize v = length P \<and> content m' v = P)) \<and>
         (let (m', v) = decrypt m raw_at buf (crypt_array (xor_functor sg Key) P)
          in vsize v = length P \<and> content m' v = P)"
proof -
  have gen: "let (m', v) = decrypt m raw_at buf (crypt_array G P)
             in vsize v = length P \<and> content m' v = P"
    if inv: "\<forall>i<length P. G (get (transform_array P G)) (length P) i = P ! i" for G
  proof -
    have N: "ct_size (cs_data (crypt_array G P)) = length P"
      by (simp add: crypt_array_eq ct_size_transform_array)
    have "content (fst (decrypt m raw_at buf (crypt_array G P)))
            (snd (decrypt m raw_at buf (crypt_array G P))) =
          str (transform (cs_data (crypt_array G P)) (cs_functor (crypt_array G P)))"
      using sep by (intro decrypt_content) (simp add: N)
    also have "\<dots> = map (\<lambda>i. G (get (transform_array P G)) (length P) i) [0..<length P]"
      by (simp add: transform_eq crypt_array_eq ct_size_transform_array)
    also have "\<dots> = P"
      using inv by (intro nth_equalityI) simp_all
    finally show ?thesis by (simp add: decrypt_view N split_def)
  qed
  have x: "\<forall>i<length P.
             xor_functor sg Key (get (transform_array P (xor_functor sg Key))) (length P) i = P ! i"
    using xor_functor_self_inverse by blast
  show ?thesis
    using gen [of F] gen [of "xor_functor sg Key", OF x] by blast
qed

theorem roundtrip_self_inverse_witness:
  "((0::nat) + length (literal ''HELLO'') \<le> 100 \<or> 100 + length (literal ''HELLO'') < (0::nat)) \<and>
   (let (m', v) = decrypt (filled 9) 0 100 (crypt_array (xor_functor True 0x1337) (literal ''HELLO''))
    in vsize v = length (literal ''HELLO'') \<and> content m' v = literal ''HELLO'')"
proof -
  have sep: "(0::nat) + length (literal ''HELLO'') \<le> 100 \<or> 100 + length (literal ''HELLO'') < (0::nat)"
    by (simp add: literal_def)
  have inv: "\<forall>i<length (literal ''HELLO'').
               xor_functor True 0x1337
                 (get (transform_array (literal ''HELLO'') (xor_functor True 0x1337)))
                 (length (literal ''HELLO'')) i = literal ''HELLO'' ! i"
    by (simp add: transform_array_eq get_def xor_functor_eq xor_twice)
  have "(\<forall>i<length (literal ''HELLO'').
               xor_functor True 0x1337
                 (get (transform_array (literal ''HELLO'') (xor_functor True 0x1337)))
                 (length (literal ''HELLO'')) i = literal ''HELLO'' ! i) \<longrightarrow>
        (let (m', v) = decrypt (filled 9) 0 100
                         (crypt_array (xor_functor True 0x1337) (literal ''HELLO''))
         in vsize v = length (literal ''HELLO'') \<and> content m' v = literal ''HELLO'')"
    using roundtrip_self_inverse [OF sep, of "xor_functor True 0x1337" "filled 9" True "0x1337"]
    by (rule conjunct1)
  with inv sep show ?thesis by blast
qed

section \<open>Errors\<close>






end
